theory Spec2Isabelle
  imports Complex_Main "HOL-Library.AList"
begin

section \<open>Data model\<close>

text \<open>
  The pipeline of \<^verbatim>\<open>vrm_rigify.py\<close> works on two kinds of host objects: armature
  objects, whose data is a collection of bones that can be iterated in order and indexed
  by name, and mesh objects, whose vertex groups are a collection of named groups.

  Coordinates are Python floats in the source. They are modelled as real numbers: the
  properties below depend on which values are copied and which comparisons with zero
  are made, never on rounding.

  A bone refers to its parent by object reference in the source; the model stores the
  parent's name, which is the key of a bone in its armature. \<^verbatim>\<open>Bone.head_local\<close> and
  \<^verbatim>\<open>EditBone.head\<close> are the same armature-space coordinate read in two host modes,
  so one record serves both views.
\<close>

type_synonym vec = "real \<times> real \<times> real"

record bone =
  name :: string
  parent :: "string option"
  head :: vec
  tail :: vec
  use_deform :: bool
  use_connect :: bool
  select :: bool
  layers :: "bool list"
  collections :: "string list"

abbreviation head_local :: "bone \<Rightarrow> vec" where
  "head_local b \<equiv> head b"

abbreviation tail_local :: "bone \<Rightarrow> vec" where
  "tail_local b \<equiv> tail b"

record 'm armature_object =
  matrix_world :: 'm
  bones :: "bone list"

text \<open>The exceptions the modelled functions can raise.\<close>

datatype error =
  KeyError
  | AssertionError
  | AttributeError
  | UnboundLocalError
  | ZeroDivisionError
  | RuntimeError

text \<open>
  A Python \<^verbatim>\<open>dict\<close> is an association list in insertion order with distinct keys;
  \<^verbatim>\<open>d[k] = v\<close> is \<^const>\<open>AList.update\<close> (an existing key keeps its place, a new
  key is appended), \<^verbatim>\<open>k in d\<close> is \<open>dict_contains\<close>, \<^verbatim>\<open>d[k]\<close> is \<open>getitem\<close>
  and raises \<^verbatim>\<open>KeyError\<close> on a missing key, \<^verbatim>\<open>d.get(k, default)\<close> is
  \<open>dict_get\<close>.
\<close>

type_synonym ('k, 'v) dict = "('k \<times> 'v) list"

definition dict_contains :: "('k, 'v) dict \<Rightarrow> 'k \<Rightarrow> bool" where
  "dict_contains d k = (map_of d k \<noteq> None)"

definition getitem :: "('k, 'v) dict \<Rightarrow> 'k \<Rightarrow> error + 'v" where
  "getitem d k = (case map_of d k of None \<Rightarrow> Inl KeyError | Some v \<Rightarrow> Inr v)"

definition dict_get :: "('k, 'v) dict \<Rightarrow> 'k \<Rightarrow> 'v \<Rightarrow> 'v" where
  "dict_get d k dflt = (case map_of d k of None \<Rightarrow> dflt | Some v \<Rightarrow> v)"

definition keys :: "('k, 'v) dict \<Rightarrow> 'k list" where
  "keys d = map fst d"

text \<open>A bone with a given name and parent, at the origin, for concrete examples.\<close>

definition test_bone :: "string \<Rightarrow> string option \<Rightarrow> bone" where
  "test_bone n p =
     \<lparr>name = n, parent = p, head = (0, 0, 0), tail = (0, 1, 0), use_deform = True,
      use_connect = False, select = False, layers = [], collections = []\<rparr>"

section \<open>Name restoration map\<close>

text \<open>
  \<^verbatim>\<open>store_original_bone_names\<close>: a dict from every bone name to itself, filled in
  bone order.
\<close>

definition store_original_bone_names :: "'m armature_object \<Rightarrow> (string, string) dict" where
  "store_original_bone_names vrm_object =
     fold (\<lambda>b original_bone_names. AList.update (name b) (name b) original_bone_names)
       (bones vrm_object) []"

text \<open>
  \<^verbatim>\<open>update_bone_name_mapping_after_rename\<close>: first \<open>bone_indices\<close>, the dict from
  every position to the original name recorded there; then the loop over the bones as
  they are after standardization, which looks each position up behind the guard
  \<^verbatim>\<open>if i in bone_indices\<close>.
\<close>

definition record_bone_indices :: "(string, string) dict \<Rightarrow> (nat, string) dict" where
  "record_bone_indices original_bone_names =
     fold (\<lambda>(i, bone_name) bone_indices. AList.update i bone_name bone_indices)
       (enumerate 0 (keys original_bone_names)) []"

fun pair_by_index ::
  "(nat, string) dict \<Rightarrow> (nat \<times> bone) list \<Rightarrow> (string, string) dict
     \<Rightarrow> error + (string, string) dict" where
  "pair_by_index bone_indices [] bone_name_mapping = Inr bone_name_mapping"
| "pair_by_index bone_indices ((i, b) # rest) bone_name_mapping =
     (if dict_contains bone_indices i then
        (case getitem bone_indices i of
           Inl e \<Rightarrow> Inl e
         | Inr original_name \<Rightarrow>
             pair_by_index bone_indices rest
               (AList.update (name b) original_name bone_name_mapping))
      else pair_by_index bone_indices rest bone_name_mapping)"

definition update_bone_name_mapping_after_rename ::
  "'m armature_object \<Rightarrow> (string, string) dict \<Rightarrow> error + (string, string) dict" where
  "update_bone_name_mapping_after_rename vrm_object original_bone_names =
     pair_by_index (record_bone_indices original_bone_names)
       (enumerate 0 (bones vrm_object)) []"

section \<open>Bone collections of the host\<close>

text \<open>
  \<^verbatim>\<open>name in edit_bones\<close>, \<^verbatim>\<open>edit_bones[name]\<close> (a \<^verbatim>\<open>KeyError\<close> when no bone has
  that name) and a write to a field of the bone found. \<^verbatim>\<open>edit_bones.remove(b)\<close> takes
  the bone out of the collection and fails when it is not a member. What the host does
  to the parent references of a removed bone's children is not part of the model.
\<close>

definition find_bone :: "bone list \<Rightarrow> string \<Rightarrow> bone option" where
  "find_bone bs n = find (\<lambda>b. name b = n) bs"

definition bones_contains :: "bone list \<Rightarrow> string \<Rightarrow> bool" where
  "bones_contains bs n = (find_bone bs n \<noteq> None)"

definition bones_getitem :: "bone list \<Rightarrow> string \<Rightarrow> error + bone" where
  "bones_getitem bs n = (case find_bone bs n of None \<Rightarrow> Inl KeyError | Some b \<Rightarrow> Inr b)"

fun update_bone :: "string \<Rightarrow> (bone \<Rightarrow> bone) \<Rightarrow> bone list \<Rightarrow> bone list" where
  "update_bone n f [] = []"
| "update_bone n f (b # bs) = (if name b = n then f b # bs else b # update_bone n f bs)"

definition edit_bones_remove :: "bone \<Rightarrow> bone list \<Rightarrow> error + bone list" where
  "edit_bones_remove b edit_bones =
     (if b \<in> set edit_bones then Inr (remove1 b edit_bones) else Inl RuntimeError)"

text \<open>
  The host keeps connected bones joined. After a write to the head or the tail of a
  bone, it copies the bone's head to the tail of its parent when the bone is connected
  (\<^verbatim>\<open>use_connect\<close>), and copies the bone's tail to the head of every connected child.
  Nothing else is moved; the option that mirrors edits across the x axis is taken to
  be off, as it is on a new armature.
\<close>

definition transform_update :: "string \<Rightarrow> bone list \<Rightarrow> bone list" where
  "transform_update n edit_bones =
     (case find_bone edit_bones n of
        None \<Rightarrow> edit_bones
      | Some ebone \<Rightarrow>
          (let joined =
                 (case parent ebone of
                    None \<Rightarrow> edit_bones
                  | Some p \<Rightarrow>
                      if use_connect ebone
                      then update_bone p (\<lambda>b. b\<lparr>tail := head ebone\<rparr>) edit_bones
                      else edit_bones)
           in case find_bone joined n of
                None \<Rightarrow> joined
              | Some ebone' \<Rightarrow>
                  map (\<lambda>child. if parent child = Some n \<and> use_connect child
                               then child\<lparr>head := tail ebone'\<rparr> else child)
                    joined))"



text \<open>
  The host keeps the names of a collection unique. A write of a name that is taken
  stores a name that is not; \<open>unique_name\<close>, a parameter of the functions that write
  names, is the host's rule: it takes the names that count as taken and the name
  written, and gives the name stored.
\<close>

text \<open>
  The host's rule as far as it is modelled, for concrete examples. An empty name is
  replaced by the default name of the collection. A name that is not taken is kept. A
  name that is taken is split into a stem and a number at its last dot when only digits
  follow that dot (the number is 0 otherwise), and the stem gets the first free suffix
  of a dot and the next numbers, written with at least three digits. The host's limit
  on the length of a name is not modelled. The search tries one number more than there
  are names taken, so one of them is free; the clause for no fuel makes the function
  total and returns a name longer than every name taken.
\<close>

definition isdigit :: "char \<Rightarrow> bool" where
  "isdigit c = (c \<in> set ''0123456789'')"

definition digit_value :: "char \<Rightarrow> nat" where
  "digit_value c = length (takeWhile (\<lambda>d. d \<noteq> c) ''0123456789'')"

definition atol :: "string \<Rightarrow> nat" where
  "atol digits = foldl (\<lambda>number c. 10 * number + digit_value c) 0 digits"

fun decimal :: "nat \<Rightarrow> string" where
  "decimal n =
     (if n < 10 then [''0123456789'' ! n]
      else decimal (n div 10) @ [''0123456789'' ! (n mod 10)])"

declare decimal.simps [simp del]

definition format_03d :: "nat \<Rightarrow> string" where
  "format_03d n = replicate (3 - length (decimal n)) CHR ''0'' @ decimal n"

definition split_name_number :: "string \<Rightarrow> string \<times> nat" where
  "split_name_number n =
     (if 1 < length n \<and> last n = CHR ''.'' then (n, 0)
      else
        (case dropWhile isdigit (rev n) of
           [] \<Rightarrow> (n, 0)
         | c # left \<Rightarrow>
             if c = CHR ''.'' then (rev left, atol (rev (takeWhile isdigit (rev n))))
             else (n, 0)))"

fun first_free :: "string list \<Rightarrow> string \<Rightarrow> nat \<Rightarrow> nat \<Rightarrow> string" where
  "first_free taken left number 0 =
     left @ replicate (Suc (sum_list (map length taken))) CHR ''.''"
| "first_free taken left number (Suc fuel) =
     (if left @ ''.'' @ format_03d number \<notin> set taken then left @ ''.'' @ format_03d number
      else first_free taken left (Suc number) fuel)"

definition numbered_name :: "string \<Rightarrow> string list \<Rightarrow> string \<Rightarrow> string" where
  "numbered_name defname taken n =
     (let n' = (if n = [] then defname else n)
      in if n' \<notin> set taken then n'
         else (case split_name_number n' of
                 (left, number) \<Rightarrow> first_free taken left (Suc number) (Suc (length taken))))"

section \<open>Role correspondence builder\<close>

text \<open>
  The role maps are read after the host's automatic role assignment has run on both
  skeletons. \<^verbatim>\<open>human_bones\<close> is a property group: \<^verbatim>\<open>keys()\<close> lists its role
  names in the enumeration's order and \<^verbatim>\<open>getattr(human_bones, role, None)\<close> reads a
  role's entry. An entry may have a \<^verbatim>\<open>node\<close>, and a node may have a
  \<^verbatim>\<open>bone_name\<close>, which is the empty string when the role is not bound.
\<close>

datatype bone_property = BoneProperty (bone_name: "string option")

datatype human_bone = HumanBone (node: "bone_property option")

type_synonym human_bones = "(string, human_bone) dict"

text \<open>\<^verbatim>\<open>hasattr(x, "node")\<close> and then \<^verbatim>\<open>x.node\<close>, for \<open>x\<close> read by \<^verbatim>\<open>getattr\<close>.\<close>

definition node_of :: "human_bone option \<Rightarrow> bone_property option" where
  "node_of attr = (case attr of None \<Rightarrow> None | Some h \<Rightarrow> node h)"

fun pair_roles ::
  "string list \<Rightarrow> human_bones \<Rightarrow> human_bones \<Rightarrow> (string \<times> string) list
     \<Rightarrow> error + (string \<times> string) list" where
  "pair_roles [] metarig_human_bones vrm_human_bones bone_mapping = Inr bone_mapping"
| "pair_roles (bone_type # rest) metarig_human_bones vrm_human_bones bone_mapping =
     (if bone_type \<in> set [''last_bone_names'', ''initial_automatic_bone_assignment''] then
        pair_roles rest metarig_human_bones vrm_human_bones bone_mapping
      else
        (case (node_of (map_of metarig_human_bones bone_type),
               node_of (map_of vrm_human_bones bone_type)) of
           (Some metarig_bone, Some vrm_bone) \<Rightarrow>
             (case bone_name vrm_bone of
                None \<Rightarrow> pair_roles rest metarig_human_bones vrm_human_bones bone_mapping
              | Some vrm_bone_name \<Rightarrow>
                  if vrm_bone_name = [] then
                    pair_roles rest metarig_human_bones vrm_human_bones bone_mapping
                  else
                    (case bone_name metarig_bone of
                       None \<Rightarrow> Inl AttributeError
                     | Some metarig_bone_name \<Rightarrow>
                         pair_roles rest metarig_human_bones vrm_human_bones
                           (bone_mapping @ [(metarig_bone_name, vrm_bone_name)])))
         | _ \<Rightarrow> pair_roles rest metarig_human_bones vrm_human_bones bone_mapping))"

definition mapping_metarig_and_vrm_model_bones ::
  "human_bones \<Rightarrow> human_bones \<Rightarrow> error + (string \<times> string) list" where
  "mapping_metarig_and_vrm_model_bones metarig_human_bones vrm_human_bones =
     pair_roles (keys metarig_human_bones) metarig_human_bones vrm_human_bones []"

text \<open>A role entry bound to a bone name; the empty name is the unbound entry.\<close>

definition bound_to :: "string \<Rightarrow> human_bone" where
  "bound_to n = HumanBone (Some (BoneProperty (Some n)))"

section \<open>Eye control derivation\<close>

text \<open>
  \<^verbatim>\<open>modify_rigify_rig_eyes_control_bones\<close>. The first loop reads the world-space head
  and tail of \<^verbatim>\<open>master_eye.L\<close> and the world-space head and the length of
  \<^verbatim>\<open>eye.L\<close>; a local variable that no iteration assigned is unbound, and reading it
  raises. \<open>world\<close> is \<^verbatim>\<open>obj.matrix_world @ _\<close> for the active object,
  \<open>bone_length\<close> the host's \<^verbatim>\<open>length\<close> property and \<open>set_length\<close> its setter.
\<close>

fun read_eye_references ::
  "(vec \<Rightarrow> vec) \<Rightarrow> (bone \<Rightarrow> real) \<Rightarrow> bone list \<Rightarrow> (vec \<times> vec) option \<Rightarrow> (vec \<times> real) option
     \<Rightarrow> (vec \<times> vec) option \<times> (vec \<times> real) option" where
  "read_eye_references world bone_length [] master eye = (master, eye)"
| "read_eye_references world bone_length (rig_bone # rest) master eye =
     (if name rig_bone = ''master_eye.L'' then
        read_eye_references world bone_length rest
          (Some (world (head rig_bone), world (tail rig_bone))) eye
      else if name rig_bone = ''eye.L'' then
        read_eye_references world bone_length rest master
          (Some (world (head rig_bone), bone_length rig_bone))
      else read_eye_references world bone_length rest master eye)"

text \<open>
  The slope \<open>x_a\<close> and the position \<open>x_position\<close> (lines 651 to 654 of the source), and
  the same along the z axis. Python evaluates the condition of a conditional expression
  first, so the eye's head is read only when the slope is not zero.
\<close>

definition x_a :: "vec \<times> vec \<Rightarrow> real" where
  "x_a master =
     (case master of ((m_head_x1, m_head_y1, m_head_z1), (m_tail_x2, m_tail_y2, m_tail_z2)) \<Rightarrow>
        if m_tail_x2 - m_head_x1 \<noteq> 0
        then (m_tail_y2 - m_head_y1) / (m_tail_x2 - m_head_x1) else 0)"

definition x_position :: "(vec \<times> vec) option \<Rightarrow> (vec \<times> real) option \<Rightarrow> error + real" where
  "x_position master eye =
     (case master of
        None \<Rightarrow> Inl UnboundLocalError
      | Some ((m_head_x1, m_head_y1, m_head_z1), m_tail) \<Rightarrow>
          (let a = x_a ((m_head_x1, m_head_y1, m_head_z1), m_tail);
               x_b = m_head_y1 - a * m_head_x1
           in if a \<noteq> 0 then
                (case eye of
                   None \<Rightarrow> Inl UnboundLocalError
                 | Some ((e_head_x3, e_head_y3, head_z3), e_head_length) \<Rightarrow>
                     Inr ((e_head_y3 - x_b) / a))
              else Inr m_head_x1))"

definition z_a :: "vec \<times> vec \<Rightarrow> real" where
  "z_a master =
     (case master of ((m_head_x1, m_head_y1, m_head_z1), (m_tail_x2, m_tail_y2, m_tail_z2)) \<Rightarrow>
        if m_tail_z2 - m_head_z1 \<noteq> 0
        then (m_tail_y2 - m_head_y1) / (m_tail_z2 - m_head_z1) else 0)"

definition z_position :: "(vec \<times> vec) option \<Rightarrow> (vec \<times> real) option \<Rightarrow> error + real" where
  "z_position master eye =
     (case master of
        None \<Rightarrow> Inl UnboundLocalError
      | Some ((m_head_x1, m_head_y1, m_head_z1), m_tail) \<Rightarrow>
          (let a = z_a ((m_head_x1, m_head_y1, m_head_z1), m_tail);
               z_b = m_head_y1 - a * m_head_z1
           in if a \<noteq> 0 then
                (case eye of
                   None \<Rightarrow> Inl UnboundLocalError
                 | Some ((e_head_x3, e_head_y3, head_z3), e_head_length) \<Rightarrow>
                     Inr ((e_head_y3 - z_b) / a))
              else Inr m_head_z1))"

text \<open>\<^verbatim>\<open>v.x = a\<close> and \<^verbatim>\<open>v.z = a\<close> on a vector.\<close>

definition set_x :: "real \<Rightarrow> vec \<Rightarrow> vec" where
  "set_x a v = (case v of (x, y, z) \<Rightarrow> (a, y, z))"

definition set_z :: "real \<Rightarrow> vec \<Rightarrow> vec" where
  "set_z a v = (case v of (x, y, z) \<Rightarrow> (x, y, a))"

definition place_eyes :: "real \<Rightarrow> real \<Rightarrow> real \<Rightarrow> bone \<Rightarrow> bone" where
  "place_eyes xp zp e_head_length rig_bone =
     (if name rig_bone = ''eye.L'' then
        rig_bone\<lparr>head := set_z zp (set_x xp (head rig_bone)),
                 tail := set_z (zp + e_head_length) (set_x xp (tail rig_bone))\<rparr>
      else if name rig_bone = ''eye.R'' then
        rig_bone\<lparr>head := set_z zp (set_x (- xp) (head rig_bone)),
                 tail := set_z (zp + e_head_length) (set_x (- xp) (tail rig_bone))\<rparr>
      else rig_bone)"

definition modify_rigify_rig_eyes_control_bones ::
  "(vec \<Rightarrow> vec) \<Rightarrow> (bone \<Rightarrow> real) \<Rightarrow> (bone \<Rightarrow> real \<Rightarrow> bone) \<Rightarrow> 'm armature_object
     \<Rightarrow> error + 'm armature_object" where
  "modify_rigify_rig_eyes_control_bones world bone_length set_length rig_object =
     (case read_eye_references world bone_length (bones rig_object) None None of
        (master, eye) \<Rightarrow>
          (case x_position master eye of
             Inl e \<Rightarrow> Inl e
           | Inr xp \<Rightarrow>
               (case z_position master eye of
                  Inl e \<Rightarrow> Inl e
                | Inr zp \<Rightarrow>
                    (case eye of
                       None \<Rightarrow> Inl UnboundLocalError
                     | Some ((e_head_x3, e_head_y3, head_z3), e_head_length) \<Rightarrow>
                         if e_head_x3 = 0 then Inl ZeroDivisionError
                         else
                           (let scale_ratio = (xp - e_head_x3) / e_head_x3;
                                placed = map (place_eyes xp zp e_head_length) (bones rig_object)
                            in if x_a (the master) \<noteq> 0 then
                                 Inr (rig_object\<lparr>bones :=
                                   update_bone ''eyes''
                                     (\<lambda>rig_bone.
                                        (let moved = rig_bone
                                               \<lparr>head := set_z zp (head rig_bone),
                                                tail := set_z (zp + e_head_length) (tail rig_bone)\<rparr>
                                         in set_length moved
                                              (bone_length moved * scale_ratio * (135 / 100))))
                                     placed\<rparr>)
                               else Inr (rig_object\<lparr>bones := placed\<rparr>))))))"

section \<open>Topology pruner\<close>

text \<open>
  \<^verbatim>\<open>matche_objects_by_name_patterns\<close>: the objects whose name matches one of the
  patterns, in collection order. A pattern is the predicate \<^verbatim>\<open>re.match(pattern, _)\<close>.
\<close>

definition matche_objects_by_name_patterns ::
  "bone list \<Rightarrow> (string \<Rightarrow> bool) list \<Rightarrow> bone list" where
  "matche_objects_by_name_patterns objects patterns =
     filter (\<lambda>node. fold (\<lambda>pattern matches. matches \<or> pattern (name node)) patterns False)
       objects"

text \<open>
  \<^verbatim>\<open>re.match(r"^palm.*$", s)\<close>: \<open>s\<close> starts with \<^verbatim>\<open>palm\<close>; the dot matches no
  newline, and \<^verbatim>\<open>$\<close> matches at the end of the string or before a newline that
  ends it.
\<close>

definition re_palm :: "string \<Rightarrow> bool" where
  "re_palm s =
     (take 4 s = ''palm'' \<and>
      (let r = drop 4 s in
         list_all (\<lambda>c. c \<noteq> CHR 0x0A) r \<or>
         (r \<noteq> [] \<and> last r = CHR 0x0A \<and> list_all (\<lambda>c. c \<noteq> CHR 0x0A) (butlast r))))"

text \<open>The first loop: every bone of the list of matches is removed.\<close>

fun remove_each :: "bone list \<Rightarrow> bone list \<Rightarrow> error + bone list" where
  "remove_each [] edit_bones = Inr edit_bones"
| "remove_each (metarig_bone # rest) edit_bones =
     (case edit_bones_remove metarig_bone edit_bones of
        Inl e \<Rightarrow> Inl e
      | Inr edit_bones' \<Rightarrow> remove_each rest edit_bones')"

text \<open>
  The second loop runs over the bone collection while removing from it. The host's
  collection is a linked list whose iterator moves on from the bone just visited, so the
  loop visits every bone that was present when it started, once, in order: the second
  argument is that sequence, the third the collection as it shrinks.
\<close>

fun remove_unmapped :: "string set \<Rightarrow> bone list \<Rightarrow> bone list \<Rightarrow> error + bone list" where
  "remove_unmapped mapped_metarig_bone_names [] edit_bones = Inr edit_bones"
| "remove_unmapped mapped_metarig_bone_names (metarig_bone # rest) edit_bones =
     (if name metarig_bone \<in> mapped_metarig_bone_names then
        remove_unmapped mapped_metarig_bone_names rest edit_bones
      else if name metarig_bone \<in> set [''pelvis.L'', ''pelvis.R''] then
        (case edit_bones_remove metarig_bone edit_bones of
           Inl e \<Rightarrow> Inl e
         | Inr edit_bones' \<Rightarrow> remove_unmapped mapped_metarig_bone_names rest edit_bones')
      else if name metarig_bone \<in> set [''breast.L'', ''breast.R''] then
        (case edit_bones_remove metarig_bone edit_bones of
           Inl e \<Rightarrow> Inl e
         | Inr edit_bones' \<Rightarrow> remove_unmapped mapped_metarig_bone_names rest edit_bones')
      else if name metarig_bone \<notin> set [''spine.003''] then
        remove_unmapped mapped_metarig_bone_names rest edit_bones
      else
        (case edit_bones_remove metarig_bone edit_bones of
           Inl e \<Rightarrow> Inl e
         | Inr edit_bones' \<Rightarrow> remove_unmapped mapped_metarig_bone_names rest edit_bones'))"

definition remove_or_log_unmapped_metarig_bones ::
  "'m armature_object \<Rightarrow> (string \<times> string) list \<Rightarrow> error + 'm armature_object" where
  "remove_or_log_unmapped_metarig_bones metarig bone_mapping =
     (let mapped_metarig_bone_names = set (map fst bone_mapping) in
      case remove_each (matche_objects_by_name_patterns (bones metarig) [re_palm])
             (bones metarig) of
        Inl e \<Rightarrow> Inl e
      | Inr edit_bones \<Rightarrow>
          (case remove_unmapped mapped_metarig_bone_names edit_bones edit_bones of
             Inl e \<Rightarrow> Inl e
           | Inr edit_bones' \<Rightarrow> Inr (metarig\<lparr>bones := edit_bones'\<rparr>)))"

section \<open>Geometric aligner\<close>





section \<open>Grafting of unmapped source bones\<close>

text \<open>
  \<^verbatim>\<open>bone_name_mapping.get(n, n) if bone_name_mapping else n\<close>: the name a source bone
  bears in the rig. An absent or empty restoration map is falsy.
\<close>

definition effective_name :: "(string, string) dict option \<Rightarrow> string \<Rightarrow> string" where
  "effective_name bone_name_mapping n =
     (case bone_name_mapping of
        None \<Rightarrow> n
      | Some d \<Rightarrow> if d = [] then n else dict_get d n n)"

text \<open>\<^verbatim>\<open>collection.assign(bone)\<close>: the bone becomes a member of the collection.\<close>

definition assign_collection :: "string \<Rightarrow> bone \<Rightarrow> bone" where
  "assign_collection c b =
     (if c \<in> set (collections b) then b else b\<lparr>collections := collections b @ [c]\<rparr>)"

text \<open>
  The bone one iteration creates. \<^verbatim>\<open>edit_bones.new(original_name)\<close> gives a bone of
  that name whose other fields are the host's defaults (\<open>new_bone\<close>); the loop then sets
  head, tail and parent, and copies the parent's layers (host version 3 or older) or
  assigns the bone to each of the parent's collections.
\<close>

definition grafted_bone :: "nat \<Rightarrow> bone \<Rightarrow> string \<Rightarrow> bone \<Rightarrow> bone \<Rightarrow> bone" where
  "grafted_bone blender_version new_bone original_name vrm_bone parent_bone_in_rig =
     (let bone_in_rig =
            (new_bone\<lparr>name := original_name\<rparr>)
              \<lparr>head := head_local vrm_bone, tail := tail_local vrm_bone,
               parent := Some (name parent_bone_in_rig)\<rparr>
      in if blender_version \<le> 3 then bone_in_rig\<lparr>layers := layers parent_bone_in_rig\<rparr>
         else fold assign_collection (collections parent_bone_in_rig) bone_in_rig)"

definition attach_bone ::
  "nat \<Rightarrow> bone \<Rightarrow> (string, string) dict option \<Rightarrow> bone \<Rightarrow> bone list \<Rightarrow> error + bone list" where
  "attach_bone blender_version new_bone bone_name_mapping vrm_bone edit_bones =
     (let vrm_bone_name = name vrm_bone;
          original_name = effective_name bone_name_mapping vrm_bone_name;
          bone_already_in_rig = bones_contains edit_bones original_name;
          vrm_bone_has_parent = (parent vrm_bone \<noteq> None)
      in if bone_already_in_rig \<or> \<not> vrm_bone_has_parent then Inr edit_bones
         else
           (case parent vrm_bone of
              None \<Rightarrow> Inl AttributeError
            | Some vrm_parent_name \<Rightarrow>
                (let parent_original_name = effective_name bone_name_mapping vrm_parent_name;
                     parent_exists_in_rig = bones_contains edit_bones parent_original_name
                 in if \<not> parent_exists_in_rig then Inr edit_bones
                    else
                      (case bones_getitem edit_bones parent_original_name of
                         Inl e \<Rightarrow> Inl e
                       | Inr parent_bone_in_rig \<Rightarrow>
                           Inr (edit_bones @
                             [grafted_bone blender_version new_bone original_name vrm_bone
                                parent_bone_in_rig])))))"

fun attach_bones ::
  "nat \<Rightarrow> bone \<Rightarrow> (string, string) dict option \<Rightarrow> bone list \<Rightarrow> bone list
     \<Rightarrow> error + bone list" where
  "attach_bones blender_version new_bone bone_name_mapping [] edit_bones = Inr edit_bones"
| "attach_bones blender_version new_bone bone_name_mapping (vrm_bone # rest) edit_bones =
     (case attach_bone blender_version new_bone bone_name_mapping vrm_bone edit_bones of
        Inl e \<Rightarrow> Inl e
      | Inr edit_bones' \<Rightarrow>
          attach_bones blender_version new_bone bone_name_mapping rest edit_bones')"

definition attach_unmapped_vrm_model_bones_to_rig ::
  "nat \<Rightarrow> bone \<Rightarrow> 'm armature_object \<Rightarrow> 'm armature_object
     \<Rightarrow> (string, string) dict option \<Rightarrow> error + 'm armature_object" where
  "attach_unmapped_vrm_model_bones_to_rig blender_version new_bone rig_object vrm_object
       bone_name_mapping =
     (case attach_bones blender_version new_bone bone_name_mapping (bones vrm_object)
             (bones rig_object) of
        Inl e \<Rightarrow> Inl e
      | Inr edit_bones \<Rightarrow> Inr (rig_object\<lparr>bones := edit_bones\<rparr>))"

text \<open>
  The decision table of the second loop read as one predicate: the bone is not mapped
  and bears one of the five names the loop removes.
\<close>

definition unmapped_extra :: "string set \<Rightarrow> bone \<Rightarrow> bool" where
  "unmapped_extra mapped b =
     (name b \<notin> mapped \<and>
      name b \<in> {''pelvis.L'', ''pelvis.R'', ''breast.L'', ''breast.R'', ''spine.003''})"

section \<open>Renaming of the deformation bones\<close>

text \<open>
  \<^verbatim>\<open>bone.name = new\<close> for the bone of the collection that is named \<open>old\<close>. A bone
  that is written the name it has keeps it. Otherwise the host stores the name its rule
  gives among the names of all bones of the armature. The bones that refer to the bone
  as their parent keep referring to it, so in the model their parent name follows.
\<close>

definition rename_bone ::
  "(string list \<Rightarrow> string \<Rightarrow> string) \<Rightarrow> string \<Rightarrow> string \<Rightarrow> bone list \<Rightarrow> bone list" where
  "rename_bone unique_name old new edit_bones =
     (if new = old then edit_bones
      else
        (let stored = unique_name (map name edit_bones) new
         in map (\<lambda>b. if parent b = Some old then b\<lparr>parent := Some stored\<rparr> else b)
              (update_bone old (\<lambda>b. b\<lparr>name := stored\<rparr>) edit_bones)))"

text \<open>
  \<^verbatim>\<open>target_name\<close>: the original name when the restoration map is given, is not
  empty and holds the source name; the source name otherwise.
\<close>

definition target_name_of :: "(string, string) dict option \<Rightarrow> string \<Rightarrow> error + string" where
  "target_name_of bone_name_mapping vrm_bone_name =
     (case bone_name_mapping of
        None \<Rightarrow> Inr vrm_bone_name
      | Some d \<Rightarrow>
          if d \<noteq> [] \<and> dict_contains d vrm_bone_name then getitem d vrm_bone_name
          else Inr vrm_bone_name)"

text \<open>
  One iteration of the loop over the correspondence pairs. The bone is looked up by
  indexing the collection, with no test that it exists; the deform flag of a
  \<^verbatim>\<open>DEF-\<close> bone is asserted.
\<close>

definition rename_pair ::
  "(string list \<Rightarrow> string \<Rightarrow> string) \<Rightarrow> (string, string) dict option \<Rightarrow> string \<times> string
     \<Rightarrow> bone list \<Rightarrow> error + bone list" where
  "rename_pair unique_name bone_name_mapping pair edit_bones =
     (case pair of (metarig_bone_name, vrm_bone_name) \<Rightarrow>
        if metarig_bone_name \<in> set [''eye.L'', ''eye.R''] then
          (case bones_getitem edit_bones (''ORG-'' @ metarig_bone_name) of
             Inl e \<Rightarrow> Inl e
           | Inr rig_bone \<Rightarrow>
               (case target_name_of bone_name_mapping vrm_bone_name of
                  Inl e \<Rightarrow> Inl e
                | Inr target_name \<Rightarrow>
                    Inr (rename_bone unique_name (name rig_bone) target_name
                           (update_bone (name rig_bone) (\<lambda>b. b\<lparr>use_deform := True\<rparr>)
                              edit_bones))))
        else
          (case bones_getitem edit_bones (''DEF-'' @ metarig_bone_name) of
             Inl e \<Rightarrow> Inl e
           | Inr rig_bone \<Rightarrow>
               if \<not> use_deform rig_bone then Inl AssertionError
               else
                 (case target_name_of bone_name_mapping vrm_bone_name of
                    Inl e \<Rightarrow> Inl e
                  | Inr target_name \<Rightarrow>
                      Inr (rename_bone unique_name (name rig_bone) target_name edit_bones))))"

fun rename_pairs ::
  "(string list \<Rightarrow> string \<Rightarrow> string) \<Rightarrow> (string, string) dict option
     \<Rightarrow> (string \<times> string) list \<Rightarrow> bone list \<Rightarrow> error + bone list" where
  "rename_pairs unique_name bone_name_mapping [] edit_bones = Inr edit_bones"
| "rename_pairs unique_name bone_name_mapping (pair # rest) edit_bones =
     (case rename_pair unique_name bone_name_mapping pair edit_bones of
        Inl e \<Rightarrow> Inl e
      | Inr edit_bones' \<Rightarrow> rename_pairs unique_name bone_name_mapping rest edit_bones')"

text \<open>The last loop: the first bone named \<^verbatim>\<open>root\<close>, if there is one, becomes \<^verbatim>\<open>Root\<close>.\<close>

definition rename_root :: "(string list \<Rightarrow> string \<Rightarrow> string) \<Rightarrow> bone list \<Rightarrow> bone list" where
  "rename_root unique_name edit_bones =
     (if bones_contains edit_bones ''root''
      then rename_bone unique_name ''root'' ''Root'' edit_bones
      else edit_bones)"

definition rename_rig_bones_to_match_vrm_model_vertex_groups ::
  "(string list \<Rightarrow> string \<Rightarrow> string) \<Rightarrow> 'm armature_object \<Rightarrow> (string \<times> string) list
     \<Rightarrow> (string, string) dict option \<Rightarrow> error + 'm armature_object" where
  "rename_rig_bones_to_match_vrm_model_vertex_groups unique_name rig_object bone_mapping
       bone_name_mapping =
     (case rename_pairs unique_name bone_name_mapping bone_mapping (bones rig_object) of
        Inl e \<Rightarrow> Inl e
      | Inr edit_bones \<Rightarrow> Inr (rig_object\<lparr>bones := rename_root unique_name edit_bones\<rparr>))"


section \<open>Hierarchy rewrites and eye wiring\<close>



text \<open>
  The table of parents, in the order of the dictionary: the six written entries, then
  the entries the two loops add for the fingers of the right and of the left hand.
\<close>

definition fingers_dict :: "(string \<times> string list) list" where
  "fingers_dict =
     [(''R'', [''Thumb1'', ''Index1'', ''Middle1'', ''Ring1'', ''Little1'']),
      (''L'', [''Thumb1'', ''Index1'', ''Middle1'', ''Ring1'', ''Little1''])]"

definition parent_adjustments :: "(string, string) dict" where
  "parent_adjustments =
     fold (\<lambda>(side, fingers) d.
             fold (\<lambda>finger. AList.update (''J_Bip_'' @ side @ ''_'' @ finger)
                                (''J_Bip_'' @ side @ ''_Hand''))
               fingers d)
       fingers_dict
       [(''J_Bip_R_Shoulder'', ''J_Bip_C_UpperChest''),
        (''J_Bip_L_Shoulder'', ''J_Bip_C_UpperChest''),
        (''J_Bip_L_UpperArm'', ''J_Bip_L_Shoulder''),
        (''J_Bip_R_UpperArm'', ''J_Bip_R_Shoulder''),
        (''J_Bip_R_UpperLeg'', ''J_Bip_C_Hips''),
        (''J_Bip_L_UpperLeg'', ''J_Bip_C_Hips'')]"







section \<open>Renaming of the vertex groups of a mesh\<close>

text \<open>
  \<^verbatim>\<open>update_vertex_groups_to_original_names\<close>. The vertex groups of the mesh are the
  list of their names, in collection order. \<^verbatim>\<open>vg.name = n\<close> writes the name of the
  group visited, and the host stores \<open>unique_name others n\<close>, where \<open>others\<close> are the
  names of the other groups of the mesh. Python's \<^verbatim>\<open>hash\<close> is a parameter.
  \<^verbatim>\<open>hash(s) % 1000000\<close> lies between 0 and 999999, and the format \<^verbatim>\<open>06d\<close> writes such
  a number with exactly six digits.
\<close>

definition format_06d :: "nat \<Rightarrow> string" where
  "format_06d n = map (\<lambda>k. ''0123456789'' ! ((n div 10 ^ k) mod 10)) [5, 4, 3, 2, 1, 0]"

definition temp_name :: "(string \<Rightarrow> int) \<Rightarrow> string \<Rightarrow> string" where
  "temp_name hash n = ''_TMP_'' @ format_06d (nat (hash n mod 1000000))"

text \<open>
  The first loop: a group whose name is a key of the restoration map is given its
  temporary name, and the temporary name (as computed, not as stored) is recorded with
  the old name and the target name. The groups already visited are \<open>done\<close>, those still
  to visit \<open>todo\<close>; \<open>states\<close> collects the names of all groups as they are after each
  write.
\<close>

fun rename_to_temporary ::
  "(string list \<Rightarrow> string \<Rightarrow> string) \<Rightarrow> (string \<Rightarrow> int) \<Rightarrow> (string, string) dict
     \<Rightarrow> string list \<Rightarrow> string list
     \<Rightarrow> (string, string \<times> string) dict \<Rightarrow> string list list
     \<Rightarrow> string list \<times> (string, string \<times> string) dict \<times> string list list" where
  "rename_to_temporary unique_name hash bone_name_mapping done [] temp_mapping states =
     (done, temp_mapping, states)"
| "rename_to_temporary unique_name hash bone_name_mapping done (vg # rest) temp_mapping states =
     (case map_of bone_name_mapping vg of
        None \<Rightarrow>
          rename_to_temporary unique_name hash bone_name_mapping (done @ [vg]) rest
            temp_mapping states
      | Some target \<Rightarrow>
          (let stored = unique_name (done @ rest) (temp_name hash vg) in
             rename_to_temporary unique_name hash bone_name_mapping (done @ [stored]) rest
               (AList.update (temp_name hash vg) (vg, target) temp_mapping)
               (states @ [done @ stored # rest])))"

text \<open>
  The second loop: a group whose name is a recorded temporary name is given its target
  name.
\<close>

fun rename_to_target ::
  "(string list \<Rightarrow> string \<Rightarrow> string) \<Rightarrow> (string, string \<times> string) dict
     \<Rightarrow> string list \<Rightarrow> string list \<Rightarrow> string list list
     \<Rightarrow> string list \<times> string list list" where
  "rename_to_target unique_name temp_mapping done [] states = (done, states)"
| "rename_to_target unique_name temp_mapping done (vg # rest) states =
     (case map_of temp_mapping vg of
        None \<Rightarrow> rename_to_target unique_name temp_mapping (done @ [vg]) rest states
      | Some (original, target_name) \<Rightarrow>
          (let stored = unique_name (done @ rest) target_name in
             rename_to_target unique_name temp_mapping (done @ [stored]) rest
               (states @ [done @ stored # rest])))"

text \<open>
  The result is the final names of the groups together with the names observed after
  each write, in order.
\<close>

definition update_vertex_groups_to_original_names ::
  "(string list \<Rightarrow> string \<Rightarrow> string) \<Rightarrow> (string \<Rightarrow> int) \<Rightarrow> string list
     \<Rightarrow> (string, string) dict option \<Rightarrow> string list \<times> string list list" where
  "update_vertex_groups_to_original_names unique_name hash vertex_groups bone_name_mapping =
     (case bone_name_mapping of
        None \<Rightarrow> (vertex_groups, [])
      | Some d \<Rightarrow>
          (case rename_to_temporary unique_name hash d [] vertex_groups [] [] of
             (renamed, temp_mapping, states) \<Rightarrow>
               rename_to_target unique_name temp_mapping [] renamed states))"

section \<open>Properties of the name restoration map\<close>

lemma update_fresh_key:
  "k \<notin> fst ` set al \<Longrightarrow> AList.update k v al = al @ [(k, v)]"
  by (induction al) auto

lemma store_names_fold:
  "distinct (map name bs) \<Longrightarrow> name ` set bs \<inter> fst ` set acc = {} \<Longrightarrow>
   fold (\<lambda>b d. AList.update (name b) (name b) d) bs acc
     = acc @ map (\<lambda>b. (name b, name b)) bs"
proof (induction bs arbitrary: acc)
  case Nil
  then show ?case by simp
next
  case (Cons b bs)
  have fresh: "name b \<notin> fst ` set acc"
    using Cons.prems(2) by auto
  have step: "AList.update (name b) (name b) acc = acc @ [(name b, name b)]"
    using fresh by (rule update_fresh_key)
  have disj: "name ` set bs \<inter> fst ` set (acc @ [(name b, name b)]) = {}"
    using Cons.prems by auto
  have "distinct (map name bs)"
    using Cons.prems(1) by simp
  from Cons.IH [OF this disj] show ?case
    by (simp add: step)
qed

lemma store_original_bone_names_distinct:
  "distinct (map name (bones vrm_object)) \<Longrightarrow>
   store_original_bone_names vrm_object = map (\<lambda>b. (name b, name b)) (bones vrm_object)"
  using store_names_fold [of "bones vrm_object" "[]"]
  by (simp add: store_original_bone_names_def)

lemma bone_indices_fold:
  "\<forall>j \<in> fst ` set acc. j < k \<Longrightarrow>
   fold (\<lambda>(i, n) d. AList.update i n d) (enumerate k ns) acc = acc @ enumerate k ns"
proof (induction ns arbitrary: k acc)
  case Nil
  then show ?case by simp
next
  case (Cons n ns)
  have fresh: "k \<notin> fst ` set acc"
    using Cons.prems by auto
  have step: "AList.update k n acc = acc @ [(k, n)]"
    using fresh by (rule update_fresh_key)
  have below: "\<forall>j \<in> fst ` set (acc @ [(k, n)]). j < Suc k"
    using Cons.prems by auto
  from Cons.IH [OF below] show ?case
    by (simp add: step)
qed

lemma record_bone_indices_eq:
  "record_bone_indices original = enumerate 0 (keys original)"
  using bone_indices_fold [of "[]" 0 "keys original"]
  by (simp add: record_bone_indices_def)

lemma map_of_enumerate:
  "map_of (enumerate k ns) i = (if k \<le> i \<and> i < k + length ns then Some (ns ! (i - k)) else None)"
proof (induction ns arbitrary: k)
  case Nil
  then show ?case by simp
next
  case (Cons n ns)
  show ?case
  proof (cases "i = k")
    case True
    then show ?thesis by simp
  next
    case False
    then show ?thesis
      using Cons.IH [of "Suc k"] by (auto simp: nth_Cons')
  qed
qed

lemma pair_by_index_total:
  "\<exists>m. pair_by_index bone_indices ibs acc = Inr m"
proof (induction ibs arbitrary: acc)
  case Nil
  then show ?case by simp
next
  case (Cons ib ibs)
  obtain i b where ib: "ib = (i, b)" by (cases ib)
  show ?case
  proof (cases "map_of bone_indices i")
    case None
    then show ?thesis
      using Cons.IH by (simp add: ib dict_contains_def)
  next
    case (Some original_name)
    then show ?thesis
      using Cons.IH by (simp add: ib dict_contains_def getitem_def)
  qed
qed

lemma pair_by_index_zip:
  assumes "distinct (map name bs)"
    and "name ` set bs \<inter> fst ` set acc = {}"
  shows "pair_by_index (enumerate 0 ks) (enumerate k bs) acc
           = Inr (acc @ zip (map name bs) (drop k ks))"
  using assms
proof (induction bs arbitrary: k acc)
  case Nil
  then show ?case by simp
next
  case (Cons b bs)
  have d: "distinct (map name bs)"
    using Cons.prems(1) by simp
  show ?case
  proof (cases "k < length ks")
    case True
    have look: "map_of (enumerate 0 ks) k = Some (ks ! k)"
      using True by (simp add: map_of_enumerate)
    have fresh: "name b \<notin> fst ` set acc"
      using Cons.prems(2) by auto
    have step: "AList.update (name b) (ks ! k) acc = acc @ [(name b, ks ! k)]"
      using fresh by (rule update_fresh_key)
    have disj: "name ` set bs \<inter> fst ` set (acc @ [(name b, ks ! k)]) = {}"
      using Cons.prems by auto
    have dr: "drop k ks = ks ! k # drop (Suc k) ks"
      using True by (simp add: Cons_nth_drop_Suc)
    show ?thesis
      using Cons.IH [OF d disj, of "Suc k"]
      by (simp add: dict_contains_def getitem_def look step dr)
  next
    case False
    have look: "map_of (enumerate 0 ks) k = None"
      using False by (simp add: map_of_enumerate)
    have disj: "name ` set bs \<inter> fst ` set acc = {}"
      using Cons.prems by auto
    show ?thesis
      using Cons.IH [OF d disj, of "Suc k"] False
      by (simp add: dict_contains_def look)
  qed
qed

lemma restoration_map_zip:
  "distinct (map name (bones vrm_object)) \<Longrightarrow>
   update_bone_name_mapping_after_rename vrm_object original
     = Inr (zip (map name (bones vrm_object)) (keys original))"
  using pair_by_index_zip [of "bones vrm_object" "[]" "keys original" 0]
  by (simp add: update_bone_name_mapping_after_rename_def record_bone_indices_eq)

text \<open>
  C4. If the skeleton has the same number of bones before and after standardization
  (bone names being unique within a skeleton, as the host guarantees), the restoration map built from
  the names recorded before and the bones found after pairs the two name lists by
  position: it has exactly that many entries, its keys are distinct, and no two
  standardized names map to the same original name.
\<close>

theorem restoration_map_entries_injective:
  assumes "distinct (map name (bones vrm_before))"
    and "distinct (map name (bones vrm_after))"
    and "length (bones vrm_before) = length (bones vrm_after)"
  shows "\<exists>m. update_bone_name_mapping_after_rename vrm_after
                (store_original_bone_names vrm_before) = Inr m
             \<and> m = zip (map name (bones vrm_after)) (map name (bones vrm_before))
             \<and> length m = length (bones vrm_before)
             \<and> distinct (map fst m) \<and> distinct (map snd m)"
proof -
  let ?m = "zip (map name (bones vrm_after)) (map name (bones vrm_before))"
  have k: "keys (store_original_bone_names vrm_before) = map name (bones vrm_before)"
    using assms(1) by (simp add: store_original_bone_names_distinct keys_def comp_def)
  have r: "update_bone_name_mapping_after_rename vrm_after
             (store_original_bone_names vrm_before) = Inr ?m"
    using restoration_map_zip [OF assms(2)] by (simp add: k)
  have l: "length (map name (bones vrm_after)) = length (map name (bones vrm_before))"
    using assms(3) by simp
  have "length ?m = length (bones vrm_before)"
    using assms(3) by simp
  moreover have "map fst ?m = map name (bones vrm_after)"
    using l by (rule map_fst_zip)
  moreover have "map snd ?m = map name (bones vrm_before)"
    using l by (rule map_snd_zip)
  ultimately show ?thesis
    using r assms(1,2) by simp
qed

theorem restoration_map_entries_injective_witness:
  "\<exists>m. update_bone_name_mapping_after_rename
          \<lparr>matrix_world = (), bones = [test_bone ''J_Bip_C_Hips'' None, test_bone ''Tail'' (Some ''J_Bip_C_Hips'')]\<rparr>
          (store_original_bone_names
            \<lparr>matrix_world = (), bones = [test_bone ''Hips'' None, test_bone ''Tail'' (Some ''Hips'')]\<rparr>) = Inr m
      \<and> m = [(''J_Bip_C_Hips'', ''Hips''), (''Tail'', ''Tail'')]
      \<and> length m = 2 \<and> distinct (map fst m) \<and> distinct (map snd m)"
  using restoration_map_entries_injective
    [of "\<lparr>matrix_world = (), bones = [test_bone ''Hips'' None, test_bone ''Tail'' (Some ''Hips'')]\<rparr>"
        "\<lparr>matrix_world = (), bones = [test_bone ''J_Bip_C_Hips'' None, test_bone ''Tail'' (Some ''J_Bip_C_Hips'')]\<rparr>"]
  by (simp add: test_bone_def)

text \<open>
  C10. Building the restoration map never raises, whatever the two bone counts are:
  the lookup by position stands behind a membership test. With \<open>N\<close> recorded names and
  \<open>M\<close> bones after standardization (their names unique), the map pairs the names of the
  first \<open>min N M\<close> bones with the recorded names at the same positions.
\<close>

theorem restoration_map_never_raises:
  "\<exists>m. update_bone_name_mapping_after_rename vrm_object original_bone_names = Inr m
      \<and> (distinct (map name (bones vrm_object)) \<longrightarrow>
           m = zip (take (min (length original_bone_names) (length (bones vrm_object)))
                      (map name (bones vrm_object)))
                   (take (min (length original_bone_names) (length (bones vrm_object)))
                      (keys original_bone_names)))"
proof -
  let ?k = "min (length original_bone_names) (length (bones vrm_object))"
  let ?ns = "map name (bones vrm_object)"
  obtain m where m: "update_bone_name_mapping_after_rename vrm_object original_bone_names = Inr m"
    using pair_by_index_total unfolding update_bone_name_mapping_after_rename_def by blast
  have "m = zip (take ?k ?ns) (take ?k (keys original_bone_names))"
    if d: "distinct ?ns"
  proof -
    have "m = zip ?ns (keys original_bone_names)"
      using restoration_map_zip [OF d, of original_bone_names] m by simp
    also have "\<dots> = take ?k (zip ?ns (keys original_bone_names))"
      by (simp add: keys_def min.commute)
    also have "\<dots> = zip (take ?k ?ns) (take ?k (keys original_bone_names))"
      by (rule take_zip)
    finally show ?thesis .
  qed
  then show ?thesis
    using m by blast
qed

theorem restoration_map_never_raises_witness:
  "\<exists>m. update_bone_name_mapping_after_rename
          \<lparr>matrix_world = (), bones = [test_bone ''J_Bip_C_Hips'' None]\<rparr>
          [(''Hips'', ''Hips''), (''Tail'', ''Tail'')] = Inr m
      \<and> m = [(''J_Bip_C_Hips'', ''Hips'')]"
  using restoration_map_never_raises
    [of "\<lparr>matrix_world = (), bones = [test_bone ''J_Bip_C_Hips'' None]\<rparr>"
        "[(''Hips'', ''Hips''), (''Tail'', ''Tail'')]"]
  by (simp add: test_bone_def keys_def)

section \<open>Properties of the topology pruner\<close>

lemma remove_member:
  "b \<notin> set ys \<Longrightarrow> edit_bones_remove b (ys @ b # bs) = Inr (ys @ bs)"
  by (simp add: edit_bones_remove_def remove1_append)

lemma remove_each_filter:
  "\<forall>y \<in> set ys. \<not> P y \<Longrightarrow>
   remove_each (filter P bs) (ys @ bs) = Inr (ys @ filter (\<lambda>b. \<not> P b) bs)"
proof (induction bs arbitrary: ys)
  case Nil
  then show ?case by simp
next
  case (Cons b bs)
  show ?case
  proof (cases "P b")
    case True
    have "b \<notin> set ys"
      using True Cons.prems by auto
    then show ?thesis
      using True Cons.IH [OF Cons.prems] by (simp add: remove_member)
  next
    case False
    have "\<forall>y \<in> set (ys @ [b]). \<not> P y"
      using False Cons.prems by auto
    from Cons.IH [OF this] show ?thesis
      using False by simp
  qed
qed

lemma remove_unmapped_filter:
  "\<forall>y \<in> set ys. \<not> unmapped_extra mapped y \<Longrightarrow>
   remove_unmapped mapped bs (ys @ bs)
     = Inr (ys @ filter (\<lambda>b. \<not> unmapped_extra mapped b) bs)"
proof (induction bs arbitrary: ys)
  case Nil
  then show ?case by simp
next
  case (Cons b bs)
  show ?case
  proof (cases "unmapped_extra mapped b")
    case True
    have "b \<notin> set ys"
      using True Cons.prems by auto
    then have r: "edit_bones_remove b (ys @ b # bs) = Inr (ys @ bs)"
      by (rule remove_member)
    show ?thesis
      using True Cons.IH [OF Cons.prems] by (auto simp: r unmapped_extra_def)
  next
    case False
    have "\<forall>y \<in> set (ys @ [b]). \<not> unmapped_extra mapped y"
      using False Cons.prems by auto
    from Cons.IH [OF this] show ?thesis
      using False by (auto simp: unmapped_extra_def)
  qed
qed

lemma matche_palm:
  "matche_objects_by_name_patterns bs [re_palm] = filter (\<lambda>b. re_palm (name b)) bs"
  by (simp add: matche_objects_by_name_patterns_def)

lemma pruner_filter:
  "remove_or_log_unmapped_metarig_bones metarig bone_mapping
     = Inr (metarig\<lparr>bones :=
         filter (\<lambda>b. \<not> unmapped_extra (fst ` set bone_mapping) b)
           (filter (\<lambda>b. \<not> re_palm (name b)) (bones metarig))\<rparr>)"
  using remove_each_filter [of "[]" "\<lambda>b. re_palm (name b)" "bones metarig"]
    remove_unmapped_filter [of "[]" "fst ` set bone_mapping"
      "filter (\<lambda>b. \<not> re_palm (name b)) (bones metarig)"]
  by (simp add: remove_or_log_unmapped_metarig_bones_def matche_palm)

text \<open>
  C5. One run of the pruner never fails and keeps, in order and unchanged, exactly the
  template bones that are not deleted. A template bone is deleted if and only if its
  name matches the palm pattern (mapped or not), or it has no entry in the
  correspondence list and its name is one of \<^verbatim>\<open>pelvis.L\<close>, \<^verbatim>\<open>pelvis.R\<close>,
  \<^verbatim>\<open>breast.L\<close>, \<^verbatim>\<open>breast.R\<close>, \<^verbatim>\<open>spine.003\<close>.
\<close>

theorem pruner_deletes_exactly:
  "\<exists>metarig'. remove_or_log_unmapped_metarig_bones metarig bone_mapping = Inr metarig'
     \<and> matrix_world metarig' = matrix_world metarig
     \<and> bones metarig' =
         filter (\<lambda>b. \<not> (re_palm (name b) \<or>
                     (name b \<notin> fst ` set bone_mapping \<and>
                      name b \<in> {''pelvis.L'', ''pelvis.R'', ''breast.L'', ''breast.R'',
                                  ''spine.003''})))
           (bones metarig)
     \<and> (\<forall>b \<in> set (bones metarig).
           b \<notin> set (bones metarig') \<longleftrightarrow>
             re_palm (name b) \<or>
             (name b \<notin> fst ` set bone_mapping \<and>
              name b \<in> {''pelvis.L'', ''pelvis.R'', ''breast.L'', ''breast.R'',
                          ''spine.003''}))"
proof -
  let ?del = "\<lambda>b. re_palm (name b) \<or>
                 (name b \<notin> fst ` set bone_mapping \<and>
                  name b \<in> {''pelvis.L'', ''pelvis.R'', ''breast.L'', ''breast.R'',
                              ''spine.003''})"
  let ?kept = "filter (\<lambda>b. \<not> ?del b) (bones metarig)"
  have "filter (\<lambda>b. \<not> unmapped_extra (fst ` set bone_mapping) b)
          (filter (\<lambda>b. \<not> re_palm (name b)) (bones metarig)) = ?kept"
    unfolding filter_filter unmapped_extra_def by (rule filter_cong) auto
  then have run: "remove_or_log_unmapped_metarig_bones metarig bone_mapping
                    = Inr (metarig\<lparr>bones := ?kept\<rparr>)"
    by (simp add: pruner_filter)
  have "\<forall>b \<in> set (bones metarig). b \<notin> set ?kept \<longleftrightarrow> ?del b"
    by simp
  then show ?thesis
    using run by simp
qed

theorem pruner_deletes_exactly_witness:
  "\<exists>metarig'. remove_or_log_unmapped_metarig_bones
       \<lparr>matrix_world = (), bones =
          [test_bone ''spine'' None, test_bone ''palm.01.L'' (Some ''spine''),
           test_bone ''pelvis.L'' (Some ''spine''), test_bone ''spine.003'' (Some ''spine''),
           test_bone ''breast.R'' (Some ''spine.003''), test_bone ''heel.02.L'' None]\<rparr>
       [(''spine'', ''J_Bip_C_Hips''), (''spine.003'', ''J_Bip_C_UpperChest'')] = Inr metarig'
     \<and> bones metarig' =
         [test_bone ''spine'' None, test_bone ''spine.003'' (Some ''spine''),
          test_bone ''heel.02.L'' None]"
  using pruner_deletes_exactly
    [of "\<lparr>matrix_world = (), bones =
          [test_bone ''spine'' None, test_bone ''palm.01.L'' (Some ''spine''),
           test_bone ''pelvis.L'' (Some ''spine''), test_bone ''spine.003'' (Some ''spine''),
           test_bone ''breast.R'' (Some ''spine.003''), test_bone ''heel.02.L'' None]\<rparr>"
        "[(''spine'', ''J_Bip_C_Hips''), (''spine.003'', ''J_Bip_C_UpperChest'')]"]
  by (auto simp: test_bone_def re_palm_def)

text \<open>
  C6. Running the pruner on its own result, with the same correspondence list, changes
  nothing and does not fail: the second run finds no bone to delete, so no deletion of
  an absent bone is ever attempted.
\<close>

theorem pruner_idempotent:
  "\<exists>metarig'. remove_or_log_unmapped_metarig_bones metarig bone_mapping = Inr metarig'
     \<and> remove_or_log_unmapped_metarig_bones metarig' bone_mapping = Inr metarig'"
  by (simp add: pruner_filter)

section \<open>Properties of the bone collections\<close>

lemma update_bone_map:
  "distinct (map name bs) \<Longrightarrow> (\<And>b. name (f b) = name b) \<Longrightarrow>
   update_bone n f bs = map (\<lambda>b. if name b = n then f b else b) bs"
proof (induction bs)
  case Nil
  then show ?case by simp
next
  case (Cons b bs)
  show ?case
  proof (cases "name b = n")
    case True
    then have "n \<notin> name ` set bs"
      using Cons.prems(1) by simp
    then have "\<forall>c \<in> set bs. name c \<noteq> n"
      by blast
    then have "map (\<lambda>b. if name b = n then f b else b) bs = bs"
      by (induction bs) auto
    then show ?thesis
      using True by simp
  next
    case False
    then show ?thesis
      using Cons by simp
  qed
qed


lemma find_bone_names:
  "map name bs' = map name bs \<Longrightarrow> (find_bone bs' n = None) = (find_bone bs n = None)"
proof -
  assume "map name bs' = map name bs"
  then have "name ` set bs' = name ` set bs"
    by (metis set_map)
  moreover have "\<And>cs. (find_bone cs n = None) = (n \<notin> name ` set cs)"
    by (auto simp: find_bone_def find_None_iff)
  ultimately show ?thesis by simp
qed

section \<open>Properties of the grafting step\<close>

lemma bones_contains_iff: "bones_contains bs n \<longleftrightarrow> n \<in> name ` set bs"
  by (auto simp: bones_contains_def find_bone_def find_None_iff)

lemma bones_contains_member: "b \<in> set bs \<Longrightarrow> bones_contains bs (name b)"
  by (simp add: bones_contains_iff)

lemma find_bone_name: "find_bone bs n = Some b \<Longrightarrow> name b = n \<and> b \<in> set bs"
  by (auto simp: find_bone_def find_Some_iff)

lemma assign_collections_fields:
  "name (fold assign_collection cs b) = name b
   \<and> head (fold assign_collection cs b) = head b
   \<and> tail (fold assign_collection cs b) = tail b
   \<and> parent (fold assign_collection cs b) = parent b"
  by (induction cs arbitrary: b) (auto simp: assign_collection_def)

lemma grafted_bone_fields:
  "name (grafted_bone ver nb n v pb) = n
   \<and> head (grafted_bone ver nb n v pb) = head_local v
   \<and> tail (grafted_bone ver nb n v pb) = tail_local v
   \<and> parent (grafted_bone ver nb n v pb) = Some (name pb)"
  by (simp add: grafted_bone_def Let_def assign_collections_fields)

lemma attach_bone_creates:
  assumes "parent v = Some p"
    and "\<not> bones_contains bs (effective_name bnm (name v))"
    and "find_bone bs (effective_name bnm p) = Some pb"
  shows "attach_bone ver nb bnm v bs
           = Inr (bs @ [grafted_bone ver nb (effective_name bnm (name v)) v pb])"
  using assms by (simp add: attach_bone_def Let_def bones_contains_def bones_getitem_def)

lemma attach_bone_cases:
  "attach_bone ver nb bnm v bs = Inr bs
   \<or> (\<exists>p pb. parent v = Some p
        \<and> \<not> bones_contains bs (effective_name bnm (name v))
        \<and> find_bone bs (effective_name bnm p) = Some pb
        \<and> attach_bone ver nb bnm v bs
            = Inr (bs @ [grafted_bone ver nb (effective_name bnm (name v)) v pb]))"
proof (cases "bones_contains bs (effective_name bnm (name v)) \<or> parent v = None")
  case True
  then show ?thesis
    by (auto simp: attach_bone_def Let_def)
next
  case False
  then obtain p where p: "parent v = Some p" by auto
  show ?thesis
  proof (cases "find_bone bs (effective_name bnm p)")
    case None
    then show ?thesis
      using False p by (simp add: attach_bone_def Let_def bones_contains_def)
  next
    case (Some pb)
    then show ?thesis
      using False p attach_bone_creates [OF p _ Some] by blast
  qed
qed

lemma attach_bones_created:
  "\<exists>created. attach_bones ver nb bnm vs bs = Inr (bs @ created)
     \<and> (\<forall>b \<in> set created. \<exists>v \<in> set vs. \<exists>p.
           parent v = Some p
           \<and> name b = effective_name bnm (name v)
           \<and> head b = head_local v \<and> tail b = tail_local v
           \<and> parent b = Some (effective_name bnm p)
           \<and> bones_contains (bs @ created) (effective_name bnm p))"
proof (induction vs arbitrary: bs)
  case Nil
  then show ?case by simp
next
  case (Cons v vs)
  from attach_bone_cases [of ver nb bnm v bs] show ?case
  proof
    assume same: "attach_bone ver nb bnm v bs = Inr bs"
    from Cons.IH [of bs] obtain created where
      c: "attach_bones ver nb bnm vs bs = Inr (bs @ created)"
      and props: "\<forall>b \<in> set created. \<exists>v \<in> set vs. \<exists>p.
           parent v = Some p
           \<and> name b = effective_name bnm (name v)
           \<and> head b = head_local v \<and> tail b = tail_local v
           \<and> parent b = Some (effective_name bnm p)
           \<and> bones_contains (bs @ created) (effective_name bnm p)"
      by blast
    have "attach_bones ver nb bnm (v # vs) bs = Inr (bs @ created)"
      using same c by simp
    moreover have "\<forall>b \<in> set created. \<exists>v' \<in> set (v # vs). \<exists>p.
           parent v' = Some p
           \<and> name b = effective_name bnm (name v')
           \<and> head b = head_local v' \<and> tail b = tail_local v'
           \<and> parent b = Some (effective_name bnm p)
           \<and> bones_contains (bs @ created) (effective_name bnm p)"
      using props by auto
    ultimately show ?thesis by blast
  next
    assume "\<exists>p pb. parent v = Some p
        \<and> \<not> bones_contains bs (effective_name bnm (name v))
        \<and> find_bone bs (effective_name bnm p) = Some pb
        \<and> attach_bone ver nb bnm v bs
            = Inr (bs @ [grafted_bone ver nb (effective_name bnm (name v)) v pb])"
    then obtain p pb where p: "parent v = Some p"
      and pb: "find_bone bs (effective_name bnm p) = Some pb"
      and step: "attach_bone ver nb bnm v bs
            = Inr (bs @ [grafted_bone ver nb (effective_name bnm (name v)) v pb])"
      by blast
    let ?g = "grafted_bone ver nb (effective_name bnm (name v)) v pb"
    from Cons.IH [of "bs @ [?g]"] obtain created where
      c: "attach_bones ver nb bnm vs (bs @ [?g]) = Inr ((bs @ [?g]) @ created)"
      and props: "\<forall>b \<in> set created. \<exists>v \<in> set vs. \<exists>p.
           parent v = Some p
           \<and> name b = effective_name bnm (name v)
           \<and> head b = head_local v \<and> tail b = tail_local v
           \<and> parent b = Some (effective_name bnm p)
           \<and> bones_contains ((bs @ [?g]) @ created) (effective_name bnm p)"
      by blast
    have run: "attach_bones ver nb bnm (v # vs) bs = Inr (bs @ ?g # created)"
      using step c by simp
    have npb: "name pb = effective_name bnm p" and inb: "pb \<in> set bs"
      using find_bone_name [OF pb] by simp_all
    have "effective_name bnm p \<in> name ` set bs"
      using npb inb by (metis imageI)
    then have here: "bones_contains (bs @ ?g # created) (effective_name bnm p)"
      by (auto simp: bones_contains_iff)
    have g: "\<exists>v' \<in> set (v # vs). \<exists>q.
           parent v' = Some q
           \<and> name ?g = effective_name bnm (name v')
           \<and> head ?g = head_local v' \<and> tail ?g = tail_local v'
           \<and> parent ?g = Some (effective_name bnm q)
           \<and> bones_contains (bs @ ?g # created) (effective_name bnm q)"
      using p here npb by (auto simp: grafted_bone_fields)
    have "\<forall>b \<in> set (?g # created). \<exists>v' \<in> set (v # vs). \<exists>q.
           parent v' = Some q
           \<and> name b = effective_name bnm (name v')
           \<and> head b = head_local v' \<and> tail b = tail_local v'
           \<and> parent b = Some (effective_name bnm q)
           \<and> bones_contains (bs @ ?g # created) (effective_name bnm q)"
      using g props by auto
    then show ?thesis
      using run by blast
  qed
qed

lemma attach_bones_grafts:
  assumes "v \<in> set vs"
    and "parent v = Some p"
    and "\<not> bones_contains bs (effective_name bnm (name v))"
    and "bones_contains bs (effective_name bnm p)"
    and "\<forall>v' \<in> set vs. effective_name bnm (name v') = effective_name bnm (name v) \<longrightarrow> v' = v"
  shows "\<exists>fin. attach_bones ver nb bnm vs bs = Inr fin
           \<and> (\<exists>b \<in> set fin. name b = effective_name bnm (name v)
                 \<and> head b = head_local v \<and> tail b = tail_local v
                 \<and> parent b = Some (effective_name bnm p))"
  using assms
proof (induction vs arbitrary: bs)
  case Nil
  then show ?case by simp
next
  case (Cons u us)
  show ?case
  proof (cases "u = v")
    case True
    from Cons.prems(4) obtain pb where pb: "find_bone bs (effective_name bnm p) = Some pb"
      by (auto simp: bones_contains_def)
    let ?g = "grafted_bone ver nb (effective_name bnm (name v)) v pb"
    have step: "attach_bone ver nb bnm u bs = Inr (bs @ [?g])"
      using True attach_bone_creates [OF Cons.prems(2) Cons.prems(3) pb] by simp
    from attach_bones_created [of ver nb bnm us "bs @ [?g]"] obtain created where
      c: "attach_bones ver nb bnm us (bs @ [?g]) = Inr ((bs @ [?g]) @ created)"
      by blast
    have "name pb = effective_name bnm p"
      using find_bone_name [OF pb] by simp
    then have "name ?g = effective_name bnm (name v) \<and> head ?g = head_local v
        \<and> tail ?g = tail_local v \<and> parent ?g = Some (effective_name bnm p)"
      by (simp add: grafted_bone_fields)
    moreover have "?g \<in> set ((bs @ [?g]) @ created)"
      by simp
    moreover have "attach_bones ver nb bnm (u # us) bs = Inr ((bs @ [?g]) @ created)"
      using step c by simp
    ultimately show ?thesis by blast
  next
    case False
    then have v: "v \<in> set us"
      using Cons.prems(1) by simp
    have differ: "effective_name bnm (name u) \<noteq> effective_name bnm (name v)"
      using False Cons.prems(5) by auto
    have uniq: "\<forall>v' \<in> set us.
        effective_name bnm (name v') = effective_name bnm (name v) \<longrightarrow> v' = v"
      using Cons.prems(5) by simp
    from attach_bone_cases [of ver nb bnm u bs] obtain bs1 where
      step: "attach_bone ver nb bnm u bs = Inr bs1"
      and absent: "\<not> bones_contains bs1 (effective_name bnm (name v))"
      and present: "bones_contains bs1 (effective_name bnm p)"
      using Cons.prems(3,4) differ
      by (auto simp: bones_contains_iff grafted_bone_fields)
    from Cons.IH [OF v Cons.prems(2) absent present uniq] show ?thesis
      using step by simp
  qed
qed

text \<open>
  C8. The grafting step never fails and only appends bones to the rig. Every bone it
  creates comes from a source bone that has a parent: it bears the source bone's
  effective (restoration-mapped) name, has exactly the source bone's local head and
  tail, and is parented to the rig bone named by the effective name of the source
  parent, which the rig holds. In particular a source bone whose effective name is not
  yet in the rig, and is shared by no other source bone, and whose parent's effective
  name is in the rig, is grafted under that parent with identical head and tail.
\<close>

theorem grafting_preserves_geometry:
  "\<exists>created.
     attach_unmapped_vrm_model_bones_to_rig blender_version new_bone rig_object vrm_object
         bone_name_mapping
       = Inr (rig_object\<lparr>bones := bones rig_object @ created\<rparr>)
     \<and> (\<forall>b \<in> set created. \<exists>v \<in> set (bones vrm_object). \<exists>p.
           parent v = Some p
           \<and> name b = effective_name bone_name_mapping (name v)
           \<and> head b = head_local v \<and> tail b = tail_local v
           \<and> parent b = Some (effective_name bone_name_mapping p)
           \<and> bones_contains (bones rig_object @ created) (effective_name bone_name_mapping p))
     \<and> (\<forall>v \<in> set (bones vrm_object). \<forall>p.
           parent v = Some p
           \<and> \<not> bones_contains (bones rig_object) (effective_name bone_name_mapping (name v))
           \<and> bones_contains (bones rig_object) (effective_name bone_name_mapping p)
           \<and> (\<forall>v' \<in> set (bones vrm_object).
                 effective_name bone_name_mapping (name v')
                   = effective_name bone_name_mapping (name v) \<longrightarrow> v' = v)
           \<longrightarrow> (\<exists>b \<in> set created.
                 name b = effective_name bone_name_mapping (name v)
                 \<and> head b = head_local v \<and> tail b = tail_local v
                 \<and> parent b = Some (effective_name bone_name_mapping p)))"
proof -
  let ?eff = "effective_name bone_name_mapping"
  let ?run = "attach_bones blender_version new_bone bone_name_mapping (bones vrm_object)
                (bones rig_object)"
  from attach_bones_created [of blender_version new_bone bone_name_mapping
      "bones vrm_object" "bones rig_object"]
  obtain created where
    c: "?run = Inr (bones rig_object @ created)"
    and sound: "\<forall>b \<in> set created. \<exists>v \<in> set (bones vrm_object). \<exists>p.
           parent v = Some p
           \<and> name b = ?eff (name v)
           \<and> head b = head_local v \<and> tail b = tail_local v
           \<and> parent b = Some (?eff p)
           \<and> bones_contains (bones rig_object @ created) (?eff p)"
    by blast
  have res: "attach_unmapped_vrm_model_bones_to_rig blender_version new_bone rig_object
               vrm_object bone_name_mapping
             = Inr (rig_object\<lparr>bones := bones rig_object @ created\<rparr>)"
    using c by (simp add: attach_unmapped_vrm_model_bones_to_rig_def)
  have complete: "\<exists>b \<in> set created. name b = ?eff (name v)
                 \<and> head b = head_local v \<and> tail b = tail_local v
                 \<and> parent b = Some (?eff p)"
    if v: "v \<in> set (bones vrm_object)" and p: "parent v = Some p"
      and absent: "\<not> bones_contains (bones rig_object) (?eff (name v))"
      and present: "bones_contains (bones rig_object) (?eff p)"
      and uniq: "\<forall>v' \<in> set (bones vrm_object). ?eff (name v') = ?eff (name v) \<longrightarrow> v' = v"
    for v p
  proof -
    from attach_bones_grafts [OF v p absent present uniq, of blender_version new_bone]
    obtain b where b: "b \<in> set (bones rig_object @ created)"
      and fields: "name b = ?eff (name v) \<and> head b = head_local v
                 \<and> tail b = tail_local v \<and> parent b = Some (?eff p)"
      using c by auto
    have "b \<notin> set (bones rig_object)"
    proof
      assume "b \<in> set (bones rig_object)"
      then have "bones_contains (bones rig_object) (name b)"
        by (rule bones_contains_member)
      then show False
        using absent fields by simp
    qed
    then have "b \<in> set created"
      using b by simp
    then show ?thesis
      using fields by blast
  qed
  show ?thesis
    using res sound complete by blast
qed

theorem grafting_preserves_geometry_witness:
  "attach_unmapped_vrm_model_bones_to_rig 4 (test_bone [] None)
     \<lparr>matrix_world = (), bones = [test_bone ''Spine'' None]\<rparr>
     \<lparr>matrix_world = (), bones =
        [test_bone ''J_Bip_C_Spine'' None,
         (test_bone ''Tail'' (Some ''J_Bip_C_Spine''))\<lparr>head := (0, 1, 2), tail := (0, 3, 5)\<rparr>]\<rparr>
     (Some [(''J_Bip_C_Spine'', ''Spine''), (''Tail'', ''Tail'')])
   = Inr \<lparr>matrix_world = (), bones =
        [test_bone ''Spine'' None,
         (test_bone ''Tail'' (Some ''Spine''))\<lparr>head := (0, 1, 2), tail := (0, 3, 5)\<rparr>]\<rparr>"
  using grafting_preserves_geometry
    [of 4 "test_bone [] None" "\<lparr>matrix_world = (), bones = [test_bone ''Spine'' None]\<rparr>"
        "\<lparr>matrix_world = (), bones =
          [test_bone ''J_Bip_C_Spine'' None,
           (test_bone ''Tail'' (Some ''J_Bip_C_Spine''))\<lparr>head := (0, 1, 2), tail := (0, 3, 5)\<rparr>]\<rparr>"
        "Some [(''J_Bip_C_Spine'', ''Spine''), (''Tail'', ''Tail'')]"]
  by (auto simp: attach_unmapped_vrm_model_bones_to_rig_def attach_bone_def Let_def
      effective_name_def dict_get_def bones_contains_def bones_getitem_def find_bone_def
      grafted_bone_def test_bone_def)

section \<open>The role correspondence builder on a template with an unbound role\<close>

text \<open>
  When every role has a node with a bone name in both role maps, the builder emits, in
  role order, one pair for every role that is not reserved and whose source name is not
  empty. The template name is copied as it is.
\<close>

lemma pair_roles_source_bound:
  assumes "\<forall>r \<in> set roles. \<exists>tn sn.
             node_of (map_of m r) = Some (BoneProperty (Some tn))
             \<and> node_of (map_of v r) = Some (BoneProperty (Some sn))"
  shows "pair_roles roles m v acc
           = Inr (acc @
               map (\<lambda>r. (the (bone_name (the (node_of (map_of m r)))),
                         the (bone_name (the (node_of (map_of v r))))))
                 (filter (\<lambda>r. r \<notin> {''last_bone_names'', ''initial_automatic_bone_assignment''}
                             \<and> the (bone_name (the (node_of (map_of v r)))) \<noteq> [])
                    roles))"
  using assms
proof (induction roles arbitrary: acc)
  case Nil
  then show ?case by simp
next
  case (Cons r roles)
  from Cons.prems obtain tn sn where
    t: "node_of (map_of m r) = Some (BoneProperty (Some tn))"
    and s: "node_of (map_of v r) = Some (BoneProperty (Some sn))"
    by auto
  have rest: "\<forall>r \<in> set roles. \<exists>tn sn.
             node_of (map_of m r) = Some (BoneProperty (Some tn))
             \<and> node_of (map_of v r) = Some (BoneProperty (Some sn))"
    using Cons.prems by simp
  show ?case
    using Cons.IH [OF rest] by (simp add: t s)
qed

text \<open>
  C1. The builder tests only the source skeleton's binding for emptiness. For a role
  that the source binds and the template leaves unbound (the empty name), it emits a
  pair whose template name is empty instead of skipping the role.
\<close>

theorem correspondence_pairs_unbound_template_role:
  "mapping_metarig_and_vrm_model_bones
     [(''hips'', bound_to ''spine''), (''jaw'', bound_to [])]
     [(''hips'', bound_to ''J_Bip_C_Hips''), (''jaw'', bound_to ''J_Adj_C_Jaw'')]
   = Inr [(''spine'', ''J_Bip_C_Hips''), ([], ''J_Adj_C_Jaw'')]"
  by (simp add: mapping_metarig_and_vrm_model_bones_def keys_def bound_to_def node_of_def)

section \<open>Properties of the eye control derivation\<close>

lemma read_master_absent:
  "''master_eye.L'' \<notin> name ` set bs \<Longrightarrow>
   fst (read_eye_references world bone_length bs master eye) = master"
  by (induction bs arbitrary: master eye) auto

lemma read_master_found:
  "distinct (map name bs) \<Longrightarrow> find_bone bs ''master_eye.L'' = Some b \<Longrightarrow>
   fst (read_eye_references world bone_length bs master eye)
     = Some (world (head b), world (tail b))"
proof (induction bs arbitrary: master eye)
  case Nil
  then show ?case by (simp add: find_bone_def)
next
  case (Cons c bs)
  show ?case
  proof (cases "name c = ''master_eye.L''")
    case True
    then have "c = b"
      using Cons.prems(2) by (simp add: find_bone_def)
    moreover have "''master_eye.L'' \<notin> name ` set bs"
      using True Cons.prems(1) by auto
    ultimately show ?thesis
      using True by (simp add: read_master_absent)
  next
    case False
    then have "find_bone bs ''master_eye.L'' = Some b"
      using Cons.prems(2) by (simp add: find_bone_def)
    moreover have "distinct (map name bs)"
      using Cons.prems(1) by simp
    ultimately show ?thesis
      using False Cons.IH by simp
  qed
qed

text \<open>
  C9. When the rig holds a master eye control bone whose world-space tail has the same
  x coordinate as its world-space head, the slope \<open>x_a\<close> is zero and the computed
  \<open>x_position\<close> is the x coordinate of that head, whatever the eye bone is.
\<close>

theorem eye_x_position_degenerate:
  assumes "distinct (map name (bones rig_object))"
    and "find_bone (bones rig_object) ''master_eye.L'' = Some b"
    and "fst (world (tail b)) = fst (world (head b))"
  shows "(case read_eye_references world bone_length (bones rig_object) None None of
            (master, eye) \<Rightarrow> x_position master eye)
         = Inr (fst (world (head b)))"
proof -
  obtain master eye where r:
    "read_eye_references world bone_length (bones rig_object) None None = (master, eye)"
    by (cases "read_eye_references world bone_length (bones rig_object) None None")
  have m: "master = Some (world (head b), world (tail b))"
    using read_master_found [OF assms(1,2), of world bone_length None None] r by simp
  obtain hx hy hz where h: "world (head b) = (hx, hy, hz)"
    by (cases "world (head b)")
  obtain tx ty tz where t: "world (tail b) = (tx, ty, tz)"
    by (cases "world (tail b)")
  have "tx = hx"
    using assms(3) h t by simp
  then have "x_position master eye = Inr hx"
    by (simp add: m h t x_position_def x_a_def)
  then show ?thesis
    using r h by simp
qed

theorem eye_x_position_degenerate_witness:
  "(case read_eye_references (\<lambda>v. v) (\<lambda>b. 1)
           [(test_bone ''master_eye.L'' None)\<lparr>head := (3, 0, 7), tail := (3, 2, 8)\<rparr>,
            (test_bone ''eye.L'' None)\<lparr>head := (1, 0, 7), tail := (1, 0, 8)\<rparr>] None None of
      (master, eye) \<Rightarrow> x_position master eye) = Inr 3"
  using eye_x_position_degenerate
    [of "\<lparr>matrix_world = (), bones =
           [(test_bone ''master_eye.L'' None)\<lparr>head := (3, 0, 7), tail := (3, 2, 8)\<rparr>,
            (test_bone ''eye.L'' None)\<lparr>head := (1, 0, 7), tail := (1, 0, 8)\<rparr>]\<rparr>"
        "(test_bone ''master_eye.L'' None)\<lparr>head := (3, 0, 7), tail := (3, 2, 8)\<rparr>"
        "\<lambda>v. v" "\<lambda>b. 1"]
  by (simp add: find_bone_def test_bone_def)

section \<open>Properties of the geometric aligner\<close>

lemma length_update_bone [simp]: "length (update_bone n f bs) = length bs"
  by (induction bs) auto





lemma find_bone_distinct:
  "distinct (map name bs) \<Longrightarrow> i < length bs \<Longrightarrow> name (bs ! i) = n \<Longrightarrow>
   find_bone bs n = Some (bs ! i)"
proof (induction bs arbitrary: i)
  case Nil
  then show ?case by simp
next
  case (Cons b bs)
  show ?case
  proof (cases i)
    case 0
    then show ?thesis using Cons.prems by (simp add: find_bone_def)
  next
    case (Suc j)
    have j: "j < length bs" and nj: "name (bs ! j) = n"
      using Cons.prems Suc by simp_all
    have "bs ! j \<in> set bs"
      using j by simp
    then have "name (bs ! j) \<in> name ` set bs"
      by (rule imageI)
    then have "name b \<noteq> n"
      using Cons.prems(1) nj by auto
    then show ?thesis
      using Cons.IH [of j] Cons.prems(1) j nj Suc by (simp add: find_bone_def)
  qed
qed



lemma length_transform_update [simp]: "length (transform_update n bs) = length bs"
  by (simp add: transform_update_def Let_def split: option.splits)























section \<open>Properties of the host's naming rule\<close>




lemma format_03d_digit: "n < 10 \<Longrightarrow> format_03d n = ''00'' @ [''0123456789'' ! n]"
  by (simp add: format_03d_def decimal.simps numeral_2_eq_2)

section \<open>Properties of the renaming of the vertex groups\<close>




lemma colliding_temporary_names_example:
  "update_vertex_groups_to_original_names (numbered_name ''Group'') (\<lambda>n. 1) [''a'', ''b'']
     (Some [(''a'', ''A''), (''b'', ''B'')])
   = ([''B'', ''_TMP_000001.001''],
      [[''_TMP_000001'', ''b''], [''_TMP_000001'', ''_TMP_000001.001''],
       [''B'', ''_TMP_000001.001'']])"
  by (simp add: update_vertex_groups_to_original_names_def temp_name_def format_06d_def
      format_03d_digit numbered_name_def split_name_number_def isdigit_def Let_def)



section \<open>Properties of the deformation rename\<close>












section \<open>Properties of the hierarchy rewrites and the eye wiring\<close>

lemma parent_adjustments_entries:
  "parent_adjustments =
     [(''J_Bip_R_Shoulder'', ''J_Bip_C_UpperChest''),
      (''J_Bip_L_Shoulder'', ''J_Bip_C_UpperChest''),
      (''J_Bip_L_UpperArm'', ''J_Bip_L_Shoulder''),
      (''J_Bip_R_UpperArm'', ''J_Bip_R_Shoulder''),
      (''J_Bip_R_UpperLeg'', ''J_Bip_C_Hips''),
      (''J_Bip_L_UpperLeg'', ''J_Bip_C_Hips''),
      (''J_Bip_R_Thumb1'', ''J_Bip_R_Hand''),
      (''J_Bip_R_Index1'', ''J_Bip_R_Hand''),
      (''J_Bip_R_Middle1'', ''J_Bip_R_Hand''),
      (''J_Bip_R_Ring1'', ''J_Bip_R_Hand''),
      (''J_Bip_R_Little1'', ''J_Bip_R_Hand''),
      (''J_Bip_L_Thumb1'', ''J_Bip_L_Hand''),
      (''J_Bip_L_Index1'', ''J_Bip_L_Hand''),
      (''J_Bip_L_Middle1'', ''J_Bip_L_Hand''),
      (''J_Bip_L_Ring1'', ''J_Bip_L_Hand''),
      (''J_Bip_L_Little1'', ''J_Bip_L_Hand'')]"
  by (simp add: parent_adjustments_def fingers_dict_def)








lemma rename_taken_name_example:
  "rename_rig_bones_to_match_vrm_model_vertex_groups (numbered_name ''Bone'')
     \<lparr>matrix_world = (), bones = [test_bone ''DEF-a'' None, test_bone ''DEF-b'' None]\<rparr>
     [(''a'', ''DEF-b''), (''b.001'', ''X'')] None
   = Inr \<lparr>matrix_world = (), bones = [test_bone ''X'' None, test_bone ''DEF-b'' None]\<rparr>"
  by (simp add: rename_rig_bones_to_match_vrm_model_vertex_groups_def rename_pair_def
      bones_getitem_def bones_contains_def find_bone_def target_name_of_def rename_bone_def
      rename_root_def test_bone_def numbered_name_def split_name_number_def isdigit_def
      format_03d_digit Let_def)





end
